theory Spec2Isabelle
  imports Main "HOL-Library.Word"
begin

section \<open>The base Variable implementation (var.pyx, class BaseVarImpl)\<close>

text \<open>
  The Cython class \<open>BaseVarImpl\<close> owns one bind slot per statement parameter. Its
  C-typed attributes (\<open>uint32_t\<close>) are 32-bit words here, so that the conversions
  \<open>len(...)\<close> to \<open>uint32_t\<close> truncate as the C assignment does. Every method that
  mutates the variable returns the outcome (returned normally, or raised) together
  with the variable as it stands at that moment: a Python exception does not undo
  the assignments made before it.
\<close>

type_synonym u32 = "32 word"

subsection \<open>Python values, database types, errors\<close>

datatype pyval =
    PyNone
  | PyBool bool
  | PyInt int
  | PyStr string
  | PyBytes "nat list"
  | PyList "pyval list"
  | PyObject nat

text \<open>
  The \<open>DbType\<close> singletons are compared by identity (\<open>is\<close>). The two the code names
  are constructors of their own; any other entry of the catalog is \<open>DB_TYPE n\<close>.
\<close>

datatype dbtype = DB_TYPE_BOOLEAN | DB_TYPE_BINARY_INTEGER | DB_TYPE nat

datatype error =
    IndexError
  | TypeError
  | AttributeError
  | NotImplementedError
  | ERR_EXPECTING_LIST_FOR_ARRAY_VAR
  | ERR_INCORRECT_VAR_ARRAYSIZE u32 u32
  | ERR_MIXED_ELEMENT_TYPES pyval
  | ERR_ARRAYS_OF_ARRAYS
  | ERR_UNSUPPORTED_TYPE_SET

datatype outcome = Returned | Raised error

subsection \<open>Metadata, connection, variable\<close>

record oracle_metadata =
  dbtype :: dbtype
  objtype :: "nat option"
  max_size :: u32
  buffer_size :: u32

text \<open>
  The parts of \<open>OracleMetadata\<close> and \<open>DbType\<close> that var.pyx calls but that are defined
  elsewhere are parameters: \<open>DbType.default_size\<close>, the static method
  \<open>OracleMetadata.from_value\<close> (which may raise) and the method
  \<open>OracleMetadata._finalize_init\<close>.
\<close>

record catalog =
  default_size :: "dbtype \<Rightarrow> u32"
  from_value :: "pyval \<Rightarrow> error + oracle_metadata"
  metadata_finalize_init :: "oracle_metadata \<Rightarrow> oracle_metadata"

text \<open>
  The connection implementation: the capability flag \<open>supports_bool\<close>, and the
  acceptance test behind \<open>_check_value\<close>: \<open>acceptable md v\<close> is the adjusted value
  when \<open>v\<close> is acceptable for the metadata, and \<open>None\<close> when it is not.
\<close>

record conn_impl =
  supports_bool :: bool
  acceptable :: "oracle_metadata option \<Rightarrow> pyval \<Rightarrow> pyval option"

text \<open>
  The variable. \<open>metadata\<close> is \<open>None\<close> until it is set from a type or a value.
  An input converter is a caller-supplied callable: it returns the converted value
  or raises (\<open>Inl\<close>), and what it raises propagates unchanged to the caller of the
  bind. \<open>slots\<close> is the storage that \<open>_set_scalar_value\<close> writes and
  \<open>_get_scalar_value\<close> reads, indexed by position.
\<close>

record var =
  conn_impl :: conn_impl
  metadata :: "oracle_metadata option"
  inconverter :: "(pyval \<Rightarrow> error + pyval) option"
  is_array :: bool
  num_elements :: u32
  num_elements_in_array :: u32
  is_value_set :: bool
  slots :: "u32 \<Rightarrow> pyval"

subsection \<open>Helpers of the Python level\<close>

text \<open>\<open>len(value)\<close>: defined on strings, bytes and lists; a TypeError (\<open>None\<close>) otherwise.\<close>

fun py_len :: "pyval \<Rightarrow> nat option" where
  "py_len (PyStr s) = Some (length s)"
| "py_len (PyBytes b) = Some (length b)"
| "py_len (PyList xs) = Some (length xs)"
| "py_len PyNone = None"
| "py_len (PyBool b) = None"
| "py_len (PyInt i) = None"
| "py_len (PyObject n) = None"

text \<open>\<open>isinstance(value, list)\<close>, giving the list when it is one.\<close>

fun as_list :: "pyval \<Rightarrow> pyval list option" where
  "as_list (PyList xs) = Some xs"
| "as_list PyNone = None"
| "as_list (PyBool b) = None"
| "as_list (PyInt i) = None"
| "as_list (PyStr s) = None"
| "as_list (PyBytes b) = None"
| "as_list (PyObject n) = None"

text \<open>
  Modelled from the spec: \<open>BaseConnImpl._check_value\<close> is called by var.pyx but defined
  in another file. Its contract is the docstring of \<open>_check_and_set_scalar_value\<close>
  and section 4.5 of the specification: when the \<open>was_set\<close> pointer is NULL
  (\<open>None\<close> here) an unacceptable value raises; otherwise the flag is cleared when the
  value is unacceptable, and nothing is raised. An acceptable value is returned
  (possibly adjusted) and the flag is left as it is.
\<close>

definition check_value ::
  "conn_impl \<Rightarrow> oracle_metadata option \<Rightarrow> pyval \<Rightarrow> bool option \<Rightarrow> error + (pyval \<times> bool option)" where
  "check_value conn md v was_set =
     (case acceptable conn md v of
        Some v' \<Rightarrow> Inr (v', was_set)
      | None \<Rightarrow>
          (case was_set of
             None \<Rightarrow> Inl ERR_UNSUPPORTED_TYPE_SET
           | Some b \<Rightarrow> Inr (v, Some False)))"

text \<open>
  Modelled from the spec: \<open>_set_scalar_value\<close> and \<open>_get_scalar_value\<close> are abstract in
  the base class (their bodies raise NotImplementedError) and are overridden by the
  driver-specific subclasses, which are not in this file. Section 4.5, step 4:
  "Store the (possibly converted) value at position"; the getter reads it back.
\<close>

definition set_scalar_value :: "var \<Rightarrow> u32 \<Rightarrow> pyval \<Rightarrow> var" where
  "set_scalar_value self pos v = self\<lparr>slots := (slots self)(pos := v)\<rparr>"

definition get_scalar_value :: "var \<Rightarrow> u32 \<Rightarrow> pyval" where
  "get_scalar_value self pos = slots self pos"

subsection \<open>The methods of BaseVarImpl\<close>

text \<open>
  \<open>_resize\<close> (lines 143-149). The methods read the attributes of \<open>self.metadata\<close>
  without testing it for None (only \<open>_set_metadata_from_value\<close> tests it); such an
  access on None fails before anything is assigned, which is the outcome
  \<open>Raised AttributeError\<close> here.
\<close>

definition resize :: "catalog \<Rightarrow> var \<Rightarrow> u32 \<Rightarrow> outcome \<times> var" where
  "resize cat self new_size =
     (case metadata self of
        None \<Rightarrow> (Raised AttributeError, self)
      | Some md \<Rightarrow>
          (Returned,
           self\<lparr>metadata :=
             Some (metadata_finalize_init cat (md\<lparr>max_size := new_size, buffer_size := 0\<rparr>))\<rparr>))"

text \<open>
  Lines 64-68 of \<open>_check_and_set_scalar_value\<close>: resize the variable, if applicable.
  \<open>size = <uint32_t> len(value)\<close> truncates to 32 bits.
\<close>

definition resize_if_applicable :: "catalog \<Rightarrow> var \<Rightarrow> pyval \<Rightarrow> outcome \<times> var" where
  "resize_if_applicable cat self v =
     (if v = PyNone then (Returned, self)
      else
        (case metadata self of
           None \<Rightarrow> (Raised AttributeError, self)
         | Some md \<Rightarrow>
             if default_size cat (dbtype md) = 0 then (Returned, self)
             else
               (case py_len v of
                  None \<Rightarrow> (Raised TypeError, self)
                | Some n \<Rightarrow>
                    (let size = (of_nat n :: u32)
                     in if size > max_size md then resize cat self size
                        else (Returned, self)))))"

text \<open>
  \<open>_check_and_set_scalar_value\<close> (lines 43-72). The third component of the result is
  the content of the \<open>was_set\<close> flag afterwards (\<open>None\<close> for a NULL pointer).
\<close>

definition check_and_set_scalar_value ::
  "catalog \<Rightarrow> var \<Rightarrow> u32 \<Rightarrow> pyval \<Rightarrow> bool option \<Rightarrow> outcome \<times> var \<times> bool option" where
  "check_and_set_scalar_value cat self pos v was_set =
     (case (case inconverter self of None \<Rightarrow> Inr v | Some f \<Rightarrow> f v) of
        Inl e \<Rightarrow> (Raised e, self, was_set)
      | Inr v1 \<Rightarrow>
          (case check_value (conn_impl self) (metadata self) v1 was_set of
             Inl e \<Rightarrow> (Raised e, self, was_set)
           | Inr (v2, was_set') \<Rightarrow>
               if was_set' = Some False then (Returned, self, was_set')
               else
                 (case resize_if_applicable cat self v2 of
                    (Raised e, self') \<Rightarrow> (Raised e, self', was_set')
                  | (Returned, self') \<Rightarrow>
                      (Returned, (set_scalar_value self' pos v2)\<lparr>is_value_set := True\<rparr>,
                       was_set'))))"

text \<open>\<open>_set_num_elements_in_array\<close> (lines 177-181).\<close>

definition set_num_elements_in_array :: "var \<Rightarrow> u32 \<Rightarrow> var" where
  "set_num_elements_in_array self n = self\<lparr>num_elements_in_array := n\<rparr>"

text \<open>
  Lines 106-111 of \<open>_check_and_set_value\<close>: the loop over the elements, with the
  counter \<open>i\<close> of type \<open>uint32_t\<close>, followed by the assignment of the number of
  elements when the loop runs to its end. The loop returns early, without that
  assignment, when an element raises or clears the flag.
\<close>

fun set_elements ::
  "catalog \<Rightarrow> var \<Rightarrow> u32 \<Rightarrow> pyval list \<Rightarrow> bool option \<Rightarrow> u32 \<Rightarrow> outcome \<times> var \<times> bool option" where
  "set_elements cat self i [] was_set n = (Returned, set_num_elements_in_array self n, was_set)"
| "set_elements cat self i (x # xs) was_set n =
     (case check_and_set_scalar_value cat self i x was_set of
        (Raised e, self', was_set') \<Rightarrow> (Raised e, self', was_set')
      | (Returned, self', was_set') \<Rightarrow>
          if was_set' = Some False then (Returned, self', was_set')
          else set_elements cat self' (i + 1) xs was_set' n)"

text \<open>\<open>_check_and_set_value\<close> (lines 74-111).\<close>

definition check_and_set_value ::
  "catalog \<Rightarrow> var \<Rightarrow> u32 \<Rightarrow> pyval \<Rightarrow> bool option \<Rightarrow> outcome \<times> var \<times> bool option" where
  "check_and_set_value cat self pos v was_set =
     (if \<not> is_array self then check_and_set_scalar_value cat self pos v was_set
      else
        (case as_list v of
           None \<Rightarrow>
             (case was_set of
                Some b \<Rightarrow> (Returned, self, Some False)
              | None \<Rightarrow> (Raised ERR_EXPECTING_LIST_FOR_ARRAY_VAR, self, None))
         | Some xs \<Rightarrow>
             (let n = (of_nat (length xs) :: u32)
              in if n > num_elements self then
                   (case was_set of
                      Some b \<Rightarrow> (Returned, self, Some False)
                    | None \<Rightarrow>
                        (Raised (ERR_INCORRECT_VAR_ARRAYSIZE (num_elements self) n), self, None))
                 else set_elements cat self 0 xs was_set n)))"

text \<open>\<open>_finalize_init\<close> (lines 113-119).\<close>

definition finalize_init :: "catalog \<Rightarrow> var \<Rightarrow> outcome \<times> var" where
  "finalize_init cat self =
     (case metadata self of
        None \<Rightarrow> (Raised AttributeError, self)
      | Some md \<Rightarrow>
          (let self1 = self\<lparr>metadata := Some (metadata_finalize_init cat md)\<rparr>
           in (Returned,
               if num_elements self1 = 0 then self1\<lparr>num_elements := 1\<rparr> else self1)))"

text \<open>\<open>_on_reset_bind\<close> (lines 134-141).\<close>

definition on_reset_bind :: "catalog \<Rightarrow> var \<Rightarrow> u32 \<Rightarrow> outcome \<times> var" where
  "on_reset_bind cat self num_rows =
     (if num_elements self < num_rows
      then finalize_init cat (self\<lparr>num_elements := num_rows\<rparr>)
      else (Returned, self))"

text \<open>
  Lines 165-168 of \<open>_set_metadata_from_value\<close>: the fallback of a boolean to a
  binary integer.
\<close>

definition adjust_boolean :: "conn_impl \<Rightarrow> bool \<Rightarrow> oracle_metadata \<Rightarrow> oracle_metadata" where
  "adjust_boolean conn is_plsql md =
     (if dbtype md = DB_TYPE_BOOLEAN \<and> \<not> supports_bool conn \<and> \<not> is_plsql
      then md\<lparr>dbtype := DB_TYPE_BINARY_INTEGER\<rparr>
      else md)"

text \<open>\<open>_set_metadata_from_value\<close> (lines 157-175).\<close>

definition set_metadata_from_value :: "catalog \<Rightarrow> var \<Rightarrow> pyval \<Rightarrow> bool \<Rightarrow> outcome \<times> var" where
  "set_metadata_from_value cat self v is_plsql =
     (case from_value cat v of
        Inl e \<Rightarrow> (Raised e, self)
      | Inr md0 \<Rightarrow>
          (let md = adjust_boolean (conn_impl self) is_plsql md0
           in case metadata self of
                None \<Rightarrow> (Returned, self\<lparr>metadata := Some md\<rparr>)
              | Some old \<Rightarrow>
                  if dbtype md \<noteq> dbtype old \<or> objtype md \<noteq> objtype old
                  then (Raised (ERR_MIXED_ELEMENT_TYPES v), self)
                  else if max_size md > max_size old
                  then (Returned, self\<lparr>metadata := Some (old\<lparr>max_size := max_size md\<rparr>)\<rparr>)
                  else (Returned, self)))"

text \<open>
  \<open>get_value\<close> (lines 200-208). \<open>_get_array_value\<close> is abstract in the base class and
  nothing in this file overrides it, so the array branch raises as the base does.
\<close>

definition get_value :: "var \<Rightarrow> u32 \<Rightarrow> error + pyval" where
  "get_value self pos =
     (if is_array self then Inl NotImplementedError
      else if pos \<ge> num_elements self then Inl IndexError
      else Inr (get_scalar_value self pos))"

text \<open>\<open>set_value\<close> (lines 210-220): the public setter, always in raising mode.\<close>

definition set_value :: "catalog \<Rightarrow> var \<Rightarrow> u32 \<Rightarrow> pyval \<Rightarrow> outcome \<times> var" where
  "set_value cat self pos v =
     (let bind = (case check_and_set_value cat self pos v None of
                    (out, self', was_set') \<Rightarrow> (out, self'))
      in if is_array self then
           (if pos > 0 then (Raised ERR_ARRAYS_OF_ARRAYS, self) else bind)
         else if pos \<ge> num_elements self then (Raised IndexError, self)
         else bind)"

subsection \<open>A concrete catalog, connection and variables\<close>

text \<open>
  Concrete inputs on which the theorems below are instantiated: a catalog with one
  variable-length type (\<open>DB_TYPE 1\<close>, default size 4000) whose finalisation fills in
  the sizes, a connection without native booleans that accepts None and strings,
  and an array variable and a scalar variable of that type.
\<close>

definition example_default_size :: "dbtype \<Rightarrow> u32" where
  "example_default_size t = (if t = DB_TYPE 1 then 4000 else 0)"

definition example_from_value :: "pyval \<Rightarrow> error + oracle_metadata" where
  "example_from_value v =
     (case v of
        PyBool b \<Rightarrow>
          Inr \<lparr>dbtype = DB_TYPE_BOOLEAN, objtype = None, max_size = 0, buffer_size = 0\<rparr>
      | PyStr s \<Rightarrow>
          Inr \<lparr>dbtype = DB_TYPE 1, objtype = None, max_size = of_nat (length s),
               buffer_size = 0\<rparr>
      | _ \<Rightarrow> Inl TypeError)"

definition example_finalize :: "oracle_metadata \<Rightarrow> oracle_metadata" where
  "example_finalize m =
     (if example_default_size (dbtype m) = 0 then m\<lparr>max_size := 0, buffer_size := 1\<rparr>
      else if max_size m = 0
      then m\<lparr>max_size := example_default_size (dbtype m),
              buffer_size := example_default_size (dbtype m)\<rparr>
      else m\<lparr>buffer_size := max_size m\<rparr>)"

definition example_catalog :: catalog where
  "example_catalog =
     \<lparr>default_size = example_default_size, from_value = example_from_value,
      metadata_finalize_init = example_finalize\<rparr>"

definition example_acceptable :: "oracle_metadata option \<Rightarrow> pyval \<Rightarrow> pyval option" where
  "example_acceptable md v =
     (case v of PyNone \<Rightarrow> Some PyNone | PyStr s \<Rightarrow> Some (PyStr s) | _ \<Rightarrow> None)"

definition example_conn :: conn_impl where
  "example_conn = \<lparr>supports_bool = False, acceptable = example_acceptable\<rparr>"

definition example_array_var :: var where
  "example_array_var =
     \<lparr>conn_impl = example_conn,
      metadata = Some \<lparr>dbtype = DB_TYPE 1, objtype = None, max_size = 2, buffer_size = 2\<rparr>,
      inconverter = None, is_array = True, num_elements = 3, num_elements_in_array = 0,
      is_value_set = False, slots = (\<lambda>j. PyStr ''old'')\<rparr>"

definition example_scalar_var :: var where
  "example_scalar_var = example_array_var\<lparr>is_array := False, num_elements := 1\<rparr>"

text \<open>
  An input converter that raises IndexError on every value, and the scalar example
  variable equipped with it.
\<close>

definition example_raising_converter :: "pyval \<Rightarrow> error + pyval" where
  "example_raising_converter v = Inl IndexError"

definition example_converter_var :: var where
  "example_converter_var =
     example_scalar_var\<lparr>inconverter := Some example_raising_converter\<rparr>"

section \<open>Properties of the scalar bind and of the element loop\<close>

text \<open>
  A scalar bind raises only before it assigns anything; it writes at most the slot
  at its position and leaves the counters and the configuration alone. The element
  loop inherits these facts by induction on the list.
\<close>

lemma resize_if_applicable_raised:
  "resize_if_applicable cat self v = (Raised e, self') \<Longrightarrow> self' = self"
  by (auto simp: resize_if_applicable_def resize_def Let_def split: if_splits option.splits)

lemma scalar_raised_unchanged:
  "check_and_set_scalar_value cat self pos v ws = (Raised e, self', ws') \<Longrightarrow> self' = self \<and> ws' = ws"
  by (auto simp: check_and_set_scalar_value_def check_value_def
      split: sum.splits option.splits if_splits prod.splits outcome.splits
      dest: resize_if_applicable_raised)

lemma resize_if_applicable_frame:
  "resize_if_applicable cat self v = (out, self') \<Longrightarrow>
     num_elements self' = num_elements self \<and>
     num_elements_in_array self' = num_elements_in_array self \<and>
     is_array self' = is_array self \<and> conn_impl self' = conn_impl self \<and>
     inconverter self' = inconverter self \<and> slots self' = slots self \<and>
     is_value_set self' = is_value_set self"
  by (auto simp: resize_if_applicable_def resize_def Let_def split: if_splits option.splits)

lemma scalar_frame:
  "check_and_set_scalar_value cat self pos v ws = (out, self', ws') \<Longrightarrow>
     num_elements self' = num_elements self \<and>
     num_elements_in_array self' = num_elements_in_array self \<and>
     is_array self' = is_array self \<and> conn_impl self' = conn_impl self \<and>
     inconverter self' = inconverter self"
  by (auto simp: check_and_set_scalar_value_def check_value_def set_scalar_value_def
      split: sum.splits option.splits if_splits prod.splits outcome.splits
      dest!: resize_if_applicable_frame)

lemma scalar_slots:
  "check_and_set_scalar_value cat self pos v ws = (out, self', ws') \<Longrightarrow> j \<noteq> pos \<Longrightarrow>
     slots self' j = slots self j"
  by (auto simp: check_and_set_scalar_value_def check_value_def set_scalar_value_def
      split: sum.splits option.splits if_splits prod.splits outcome.splits
      dest!: resize_if_applicable_frame)

lemma scalar_flag_none:
  "check_and_set_scalar_value cat self pos v None = (out, self', ws') \<Longrightarrow> ws' = None"
  by (auto simp: check_and_set_scalar_value_def check_value_def
      split: sum.splits option.splits if_splits prod.splits outcome.splits)


lemma set_elements_frame:
  "set_elements cat self i xs ws n = (out, self', ws') \<Longrightarrow>
     num_elements self' = num_elements self \<and> is_array self' = is_array self \<and>
     conn_impl self' = conn_impl self \<and> inconverter self' = inconverter self"
proof (induction xs arbitrary: self i ws)
  case Nil
  then show ?case by (auto simp: set_num_elements_in_array_def)
next
  case (Cons x xs)
  obtain o1 s1 w1 where step: "check_and_set_scalar_value cat self i x ws = (o1, s1, w1)"
    by (cases "check_and_set_scalar_value cat self i x ws") auto
  note fr = scalar_frame [OF step]
  show ?case
  proof (cases "o1 = Returned \<and> w1 \<noteq> Some False")
    case True
    with Cons.prems step have "set_elements cat s1 (i + 1) xs w1 n = (out, self', ws')"
      by simp
    from Cons.IH [OF this] fr show ?thesis by simp
  next
    case False
    with Cons.prems step have "self' = s1"
      by (cases o1) (auto split: if_splits)
    with fr show ?thesis by simp
  qed
qed

lemma set_elements_flag_none:
  "set_elements cat self i xs None n = (out, self', ws') \<Longrightarrow> ws' = None"
proof (induction xs arbitrary: self i)
  case Nil
  then show ?case by simp
next
  case (Cons x xs)
  obtain o1 s1 w1 where step: "check_and_set_scalar_value cat self i x None = (o1, s1, w1)"
    by (cases "check_and_set_scalar_value cat self i x None") auto
  from scalar_flag_none [OF step] have w1: "w1 = None" .
  show ?case
  proof (cases o1)
    case Returned
    with Cons.prems step w1 have "set_elements cat s1 (i + 1) xs None n = (out, self', ws')"
      by simp
    from Cons.IH [OF this] show ?thesis .
  next
    case (Raised e)
    with Cons.prems step w1 show ?thesis by simp
  qed
qed

lemma set_elements_slots:
  "set_elements cat self i xs ws n = (out, self', ws') \<Longrightarrow>
     \<forall>k < length xs. j \<noteq> i + of_nat k \<Longrightarrow> slots self' j = slots self j"
proof (induction xs arbitrary: self i ws)
  case Nil
  then show ?case by (auto simp: set_num_elements_in_array_def)
next
  case (Cons x xs)
  obtain o1 s1 w1 where step: "check_and_set_scalar_value cat self i x ws = (o1, s1, w1)"
    by (cases "check_and_set_scalar_value cat self i x ws") auto
  from Cons.prems(2) have "j \<noteq> i + of_nat 0" by blast
  then have "j \<noteq> i" by simp
  from scalar_slots [OF step this] have s1: "slots s1 j = slots self j" .
  show ?case
  proof (cases "o1 = Returned \<and> w1 \<noteq> Some False")
    case True
    with Cons.prems step have rec: "set_elements cat s1 (i + 1) xs w1 n = (out, self', ws')"
      by simp
    have "\<forall>k < length xs. j \<noteq> (i + 1) + of_nat k"
    proof (intro allI impI)
      fix k assume "k < length xs"
      then have "Suc k < length (x # xs)" by simp
      with Cons.prems(2) have "j \<noteq> i + of_nat (Suc k)" by blast
      then show "j \<noteq> (i + 1) + of_nat k" by (simp add: ac_simps)
    qed
    from Cons.IH [OF rec this] s1 show ?thesis by simp
  next
    case False
    with Cons.prems step have "self' = s1"
      by (cases o1) (auto split: if_splits)
    with s1 show ?thesis by simp
  qed
qed

lemma set_elements_num_elements_in_array:
  "set_elements cat self i xs ws n = (out, self', ws') \<Longrightarrow>
     num_elements_in_array self' = num_elements_in_array self \<or>
     (out = Returned \<and> num_elements_in_array self' = n)"
proof (induction xs arbitrary: self i ws)
  case Nil
  then show ?case by (auto simp: set_num_elements_in_array_def)
next
  case (Cons x xs)
  obtain o1 s1 w1 where step: "check_and_set_scalar_value cat self i x ws = (o1, s1, w1)"
    by (cases "check_and_set_scalar_value cat self i x ws") auto
  note fr = scalar_frame [OF step]
  show ?case
  proof (cases "o1 = Returned \<and> w1 \<noteq> Some False")
    case True
    with Cons.prems step have "set_elements cat s1 (i + 1) xs w1 n = (out, self', ws')"
      by simp
    from Cons.IH [OF this] fr show ?thesis by simp
  next
    case False
    with Cons.prems step have "self' = s1"
      by (cases o1) (auto split: if_splits)
    with fr show ?thesis by simp
  qed
qed

lemma set_elements_returned:
  "set_elements cat self i xs None n = (Returned, self', ws') \<Longrightarrow>
     num_elements_in_array self' = n"
proof (induction xs arbitrary: self i)
  case Nil
  then show ?case by (auto simp: set_num_elements_in_array_def)
next
  case (Cons x xs)
  obtain o1 s1 w1 where step: "check_and_set_scalar_value cat self i x None = (o1, s1, w1)"
    by (cases "check_and_set_scalar_value cat self i x None") auto
  from scalar_flag_none [OF step] have w1: "w1 = None" .
  show ?case
  proof (cases o1)
    case Returned
    with Cons.prems step w1 have "set_elements cat s1 (i + 1) xs None n = (Returned, self', ws')"
      by simp
    from Cons.IH [OF this] show ?thesis .
  next
    case (Raised e)
    with Cons.prems step w1 show ?thesis by simp
  qed
qed

lemma set_elements_raised:
  "set_elements cat self i xs None n = (Raised e, self', ws') \<Longrightarrow>
     num_elements_in_array self' = num_elements_in_array self \<and>
     (\<exists>pre x post. xs = pre @ x # post \<and>
        (\<forall>m. set_elements cat self i pre None m =
          (Returned, self'\<lparr>num_elements_in_array := m\<rparr>, None)) \<and>
        check_and_set_scalar_value cat self' (i + of_nat (length pre)) x None =
          (Raised e, self', None))"
proof (induction xs arbitrary: self i)
  case Nil
  then show ?case by simp
next
  case (Cons x xs)
  obtain o1 s1 w1 where step: "check_and_set_scalar_value cat self i x None = (o1, s1, w1)"
    by (cases "check_and_set_scalar_value cat self i x None") auto
  from scalar_flag_none [OF step] have w1: "w1 = None" .
  note fr = scalar_frame [OF step]
  show ?case
  proof (cases o1)
    case Returned
    with Cons.prems step w1 have rec: "set_elements cat s1 (i + 1) xs None n = (Raised e, self', ws')"
      by simp
    from Cons.IH [OF rec] obtain pre y post where
      nia: "num_elements_in_array self' = num_elements_in_array s1" and
      xs: "xs = pre @ y # post" and
      pre: "\<forall>m. set_elements cat s1 (i + 1) pre None m =
              (Returned, self'\<lparr>num_elements_in_array := m\<rparr>, None)" and
      bad: "check_and_set_scalar_value cat self' (i + 1 + of_nat (length pre)) y None =
              (Raised e, self', None)"
      by blast
    have "x # xs = (x # pre) @ y # post" using xs by simp
    moreover have "\<forall>m. set_elements cat self i (x # pre) None m =
        (Returned, self'\<lparr>num_elements_in_array := m\<rparr>, None)"
      using step Returned w1 pre by simp
    moreover have "check_and_set_scalar_value cat self' (i + of_nat (length (x # pre))) y None =
        (Raised e, self', None)"
      using bad by (simp add: ac_simps)
    ultimately have "\<exists>pre' x' post'. x # xs = pre' @ x' # post' \<and>
        (\<forall>m. set_elements cat self i pre' None m =
          (Returned, self'\<lparr>num_elements_in_array := m\<rparr>, None)) \<and>
        check_and_set_scalar_value cat self' (i + of_nat (length pre')) x' None =
          (Raised e, self', None)"
      by (intro exI conjI)
    moreover have "num_elements_in_array self' = num_elements_in_array self"
      using nia fr by simp
    ultimately show ?thesis by (rule conjI [rotated])
  next
    case (Raised e')
    with Cons.prems step w1 have eq: "e' = e" "self' = s1" by simp_all
    from scalar_raised_unchanged [OF step [unfolded Raised]] have s1: "s1 = self" by simp
    have "x # xs = [] @ x # xs" by simp
    moreover have "\<forall>m. set_elements cat self i [] None m =
        (Returned, self'\<lparr>num_elements_in_array := m\<rparr>, None)"
      using eq s1 by (simp add: set_num_elements_in_array_def)
    moreover have "check_and_set_scalar_value cat self' (i + of_nat (length ([]::pyval list))) x None =
        (Raised e, self', None)"
      using step Raised eq s1 w1 by simp
    ultimately have "\<exists>pre' x' post'. x # xs = pre' @ x' # post' \<and>
        (\<forall>m. set_elements cat self i pre' None m =
          (Returned, self'\<lparr>num_elements_in_array := m\<rparr>, None)) \<and>
        check_and_set_scalar_value cat self' (i + of_nat (length pre')) x' None =
          (Raised e, self', None)"
      by (intro exI conjI)
    moreover have "num_elements_in_array self' = num_elements_in_array self"
      using eq s1 by simp
    ultimately show ?thesis by (rule conjI [rotated])
  qed
qed

lemma resize_if_applicable_max_size:
  assumes fin: "\<forall>m. default_size cat (dbtype m) \<noteq> 0 \<and> max_size m \<noteq> 0 \<longrightarrow>
                  max_size m \<le> max_size (metadata_finalize_init cat m)"
    and md: "metadata self = Some md"
    and res: "resize_if_applicable cat self v = (out, self')"
  shows "\<exists>md'. metadata self' = Some md' \<and> max_size md \<le> max_size md'"
proof (cases "self' = self")
  case True
  with md show ?thesis by simp
next
  case False
  with res md obtain n where
    ds: "default_size cat (dbtype md) \<noteq> 0" and
    gt: "max_size md < of_nat n" and
    r: "resize cat self (of_nat n) = (out, self')"
    by (auto simp: resize_if_applicable_def Let_def split: if_splits option.splits)
  let ?m = "md\<lparr>max_size := of_nat n, buffer_size := 0\<rparr>"
  from r md have meta: "metadata self' = Some (metadata_finalize_init cat ?m)"
    by (auto simp: resize_def)
  from gt have "max_size ?m \<noteq> 0" by auto
  moreover from ds have "default_size cat (dbtype ?m) \<noteq> 0" by simp
  ultimately have "max_size ?m \<le> max_size (metadata_finalize_init cat ?m)"
    using fin by blast
  with gt have "max_size md \<le> max_size (metadata_finalize_init cat ?m)"
    by simp
  with meta show ?thesis by simp
qed

lemma scalar_max_size:
  assumes fin: "\<forall>m. default_size cat (dbtype m) \<noteq> 0 \<and> max_size m \<noteq> 0 \<longrightarrow>
                  max_size m \<le> max_size (metadata_finalize_init cat m)"
    and md: "metadata self = Some md"
    and res: "check_and_set_scalar_value cat self pos v ws = (out, self', ws')"
  shows "\<exists>md'. metadata self' = Some md' \<and> max_size md \<le> max_size md'"
proof (cases "self' = self")
  case True
  with md show ?thesis by simp
next
  case False
  with res obtain v2 o2 s2 where
    r: "resize_if_applicable cat self v2 = (o2, s2)" and
    m: "metadata self' = metadata s2"
    by (auto simp: check_and_set_scalar_value_def set_scalar_value_def
        split: sum.splits prod.splits if_splits outcome.splits)
  from resize_if_applicable_max_size [OF fin md r] m show ?thesis by simp
qed

lemma set_elements_max_size:
  assumes fin: "\<forall>m. default_size cat (dbtype m) \<noteq> 0 \<and> max_size m \<noteq> 0 \<longrightarrow>
                  max_size m \<le> max_size (metadata_finalize_init cat m)"
  shows "metadata self = Some md \<Longrightarrow> set_elements cat self i xs ws n = (out, self', ws') \<Longrightarrow>
     \<exists>md'. metadata self' = Some md' \<and> max_size md \<le> max_size md'"
proof (induction xs arbitrary: self i ws md)
  case Nil
  then show ?case by (auto simp: set_num_elements_in_array_def)
next
  case (Cons x xs)
  obtain o1 s1 w1 where step: "check_and_set_scalar_value cat self i x ws = (o1, s1, w1)"
    by (cases "check_and_set_scalar_value cat self i x ws") auto
  from scalar_max_size [OF fin Cons.prems(1) step] obtain md1 where
    md1: "metadata s1 = Some md1" "max_size md \<le> max_size md1" by blast
  show ?case
  proof (cases "o1 = Returned \<and> w1 \<noteq> Some False")
    case True
    with Cons.prems step have "set_elements cat s1 (i + 1) xs w1 n = (out, self', ws')"
      by simp
    from Cons.IH [OF md1(1) this] md1(2) show ?thesis by auto
  next
    case False
    with Cons.prems step have "self' = s1"
      by (cases o1) (auto split: if_splits)
    with md1 show ?thesis by simp
  qed
qed

text \<open>
  Positions and the 32-bit length: a position at or beyond the length of the list is
  none of the positions the loop visits from 0, and a length within the capacity
  survives the conversion to 32 bits.
\<close>

lemma position_beyond_length:
  fixes j :: u32
  assumes "length xs \<le> unat j"
  shows "\<forall>k < length xs. j \<noteq> 0 + of_nat k"
proof (intro allI impI)
  fix k assume k: "k < length xs"
  have "unat j < 2 ^ 32" using unsigned_less [of j, where ?'a = nat] by simp
  with k assms have "k < 2 ^ 32" by simp
  then have "unat (of_nat k :: u32) = k" by (simp add: unat_of_nat)
  with k assms have "unat (of_nat k :: u32) \<noteq> unat j" by simp
  then show "j \<noteq> 0 + of_nat k" by auto
qed

lemma length_within_capacity:
  fixes n :: u32
  assumes "k \<le> unat n"
  shows "unat (of_nat k :: u32) = k" and "\<not> n < of_nat k"
proof -
  have "unat n < 2 ^ 32" using unsigned_less [of n, where ?'a = nat] by simp
  with assms have "k < 2 ^ 32" by simp
  then show u: "unat (of_nat k :: u32) = k" by (simp add: unat_of_nat)
  with assms show "\<not> n < of_nat k" by (simp add: word_less_nat_alt)
qed

lemma length_over_capacity:
  fixes n :: u32
  assumes "unat n < k" and "k < 2 ^ 32"
  shows "n < of_nat k"
proof -
  from assms(2) have "unat (of_nat k :: u32) = k" by (simp add: unat_of_nat)
  with assms(1) show ?thesis by (simp add: word_less_nat_alt)
qed




text \<open>
  Running the loop over a list that starts with a prefix the loop gets through:
  the run continues after the prefix from the state the prefix alone produces, with
  \<open>num_elements_in_array\<close> not yet assigned.
\<close>

lemma set_elements_append:
  "set_elements cat self i pre ws m = (Returned, s1, ws1) \<Longrightarrow> ws1 \<noteq> Some False \<Longrightarrow>
     set_elements cat self i (pre @ rest) ws n =
       set_elements cat (s1\<lparr>num_elements_in_array := num_elements_in_array self\<rparr>)
         (i + of_nat (length pre)) rest ws1 n"
proof (induction pre arbitrary: self i ws)
  case Nil
  then show ?case by (auto simp: set_num_elements_in_array_def)
next
  case (Cons y pre)
  obtain o1 s' w1 where step: "check_and_set_scalar_value cat self i y ws = (o1, s', w1)"
    by (cases "check_and_set_scalar_value cat self i y ws") auto
  from Cons.prems step have o1: "o1 = Returned" and w1: "w1 \<noteq> Some False"
    by (cases o1; auto split: if_splits)+
  with Cons.prems step have run: "set_elements cat s' (i + 1) pre w1 m = (Returned, s1, ws1)"
    by simp
  from scalar_frame [OF step]
  have nia: "num_elements_in_array s' = num_elements_in_array self" by simp
  from Cons.IH [OF run Cons.prems(2)] nia step o1 w1 show ?case
    by (simp add: ac_simps)
qed

lemma set_elements_prefix_returned:
  "set_elements cat self i (pre @ rest) None n = (Returned, s', w') \<Longrightarrow>
     \<exists>s1. set_elements cat self i pre None m = (Returned, s1, None)"
proof (induction pre arbitrary: self i)
  case Nil
  then show ?case by simp
next
  case (Cons y pre)
  obtain o1 s1 w1 where step: "check_and_set_scalar_value cat self i y None = (o1, s1, w1)"
    by (cases "check_and_set_scalar_value cat self i y None") auto
  from scalar_flag_none [OF step] have w1: "w1 = None" .
  from Cons.prems step w1 have o1: "o1 = Returned" by (cases o1) auto
  with Cons.prems step w1
  have "set_elements cat s1 (i + 1) (pre @ rest) None n = (Returned, s', w')" by simp
  from Cons.IH [OF this] step o1 w1 show ?case by simp
qed



text \<open>
  A scalar bind in raising mode raises IndexError only when the input converter
  does: the check of the value and the resize raise other errors.
\<close>

lemma scalar_raises_IndexError:
  "fst (check_and_set_scalar_value cat self pos v None) = Raised IndexError \<longleftrightarrow>
     (\<exists>f. inconverter self = Some f \<and> f v = Inl IndexError)"
  by (auto simp: check_and_set_scalar_value_def check_value_def resize_if_applicable_def
      resize_def Let_def
      split: sum.splits option.splits if_splits prod.splits outcome.splits)

section \<open>The claims\<close>

lemmas example_defs = example_default_size_def example_from_value_def example_finalize_def
  example_catalog_def example_acceptable_def example_conn_def example_array_var_def
  example_scalar_var_def example_raising_converter_def example_converter_var_def

text \<open>
  Claim C10. When the finalisation of the initialisation returns, \<open>num_elements\<close> is
  at least 1 (a zero is replaced by 1, any other value is kept), and it returns
  whenever the metadata is set. Resetting a bind with \<open>num_rows\<close> changes
  \<open>num_elements\<close> only when \<open>num_rows\<close> is larger, and then to \<open>num_rows\<close>, so it never
  decreases; binding values, inferring metadata and resizing leave it as it is.
\<close>

theorem num_elements_positive_and_growing:
  "(fst (finalize_init cat self) = Returned \<longrightarrow>
      1 \<le> num_elements (snd (finalize_init cat self)) \<and>
      num_elements (snd (finalize_init cat self)) =
        (if num_elements self = 0 then 1 else num_elements self)) \<and>
   (metadata self \<noteq> None \<longrightarrow>
      fst (finalize_init cat self) = Returned \<and>
      fst (on_reset_bind cat self num_rows) = Returned) \<and>
   num_elements (snd (on_reset_bind cat self num_rows)) =
     (if num_elements self < num_rows then num_rows else num_elements self) \<and>
   num_elements self \<le> num_elements (snd (on_reset_bind cat self num_rows)) \<and>
   num_elements (fst (snd (check_and_set_value cat self pos v was_set))) = num_elements self \<and>
   num_elements (snd (set_value cat self pos v)) = num_elements self \<and>
   num_elements (snd (set_metadata_from_value cat self v is_plsql)) = num_elements self \<and>
   num_elements (snd (resize cat self new_size)) = num_elements self"
proof -
  have word_pos: "1 \<le> x" if "x \<noteq> 0" for x :: u32
    using that by (simp add: word_le_nat_alt unat_gt_0 Suc_leI)
  have fin: "fst (finalize_init cat self) = Returned \<longrightarrow>
      1 \<le> num_elements (snd (finalize_init cat self)) \<and>
      num_elements (snd (finalize_init cat self)) =
        (if num_elements self = 0 then 1 else num_elements self)"
    by (auto simp: finalize_init_def Let_def word_pos split: option.splits)
  have tot: "metadata self \<noteq> None \<longrightarrow>
      fst (finalize_init cat self) = Returned \<and>
      fst (on_reset_bind cat self num_rows) = Returned"
    by (auto simp: finalize_init_def on_reset_bind_def Let_def split: option.splits)
  have reset: "num_elements (snd (on_reset_bind cat self num_rows)) =
     (if num_elements self < num_rows then num_rows else num_elements self)"
    by (auto simp: finalize_init_def on_reset_bind_def Let_def split: option.splits)
  have mono: "num_elements self \<le> num_elements (snd (on_reset_bind cat self num_rows))"
    unfolding reset by (simp add: less_imp_le)
  have bind: "num_elements (fst (snd (check_and_set_value cat self pos v was_set))) =
      num_elements self"
  proof -
    obtain out self' ws' where r: "check_and_set_value cat self pos v was_set = (out, self', ws')"
      by (cases "check_and_set_value cat self pos v was_set") auto
    then have "num_elements self' = num_elements self"
      by (auto simp: check_and_set_value_def Let_def
          split: if_splits option.splits dest: scalar_frame set_elements_frame)
    with r show ?thesis by simp
  qed
  have setv: "num_elements (snd (set_value cat self pos v)) = num_elements self"
  proof -
    obtain out self' ws' where r: "check_and_set_value cat self pos v None = (out, self', ws')"
      by (cases "check_and_set_value cat self pos v None") auto
    then have "num_elements self' = num_elements self"
      by (auto simp: check_and_set_value_def Let_def
          split: if_splits option.splits dest: scalar_frame set_elements_frame)
    with r show ?thesis by (simp add: set_value_def Let_def)
  qed
  have infer: "num_elements (snd (set_metadata_from_value cat self v is_plsql)) =
      num_elements self"
    by (simp add: set_metadata_from_value_def Let_def split: sum.splits option.splits)
  have rs: "num_elements (snd (resize cat self new_size)) = num_elements self"
    by (simp add: resize_def split: option.splits)
  from fin tot reset mono bind setv infer rs show ?thesis by blast
qed

theorem num_elements_positive_and_growing_witness:
  "fst (finalize_init example_catalog (example_array_var\<lparr>num_elements := 0\<rparr>)) = Returned \<and>
   num_elements (snd (finalize_init example_catalog (example_array_var\<lparr>num_elements := 0\<rparr>))) = 1 \<and>
   fst (on_reset_bind example_catalog (example_array_var\<lparr>num_elements := 0\<rparr>) 5) = Returned \<and>
   num_elements (snd (on_reset_bind example_catalog (example_array_var\<lparr>num_elements := 0\<rparr>) 5)) = 5"
proof -
  have m: "metadata (example_array_var\<lparr>num_elements := 0\<rparr>) \<noteq> None"
    by (simp add: example_defs)
  have n: "num_elements (example_array_var\<lparr>num_elements := 0\<rparr>) = 0"
    by simp
  note t = num_elements_positive_and_growing [where cat = example_catalog
      and self = "example_array_var\<lparr>num_elements := 0\<rparr>" and num_rows = 5]
  from t m have r: "fst (finalize_init example_catalog (example_array_var\<lparr>num_elements := 0\<rparr>)) = Returned"
    "fst (on_reset_bind example_catalog (example_array_var\<lparr>num_elements := 0\<rparr>) 5) = Returned"
    by blast+
  from t r(1) n
  have "num_elements (snd (finalize_init example_catalog (example_array_var\<lparr>num_elements := 0\<rparr>))) = 1"
    by simp
  moreover from t n
  have "num_elements (snd (on_reset_bind example_catalog (example_array_var\<lparr>num_elements := 0\<rparr>) 5)) = 5"
    by simp
  ultimately show ?thesis using r by simp
qed

text \<open>
  Claim C5. The invariant \<open>num_elements_in_array \<le> num_elements\<close> is kept by every
  operation of the variable: binding a value with or without a flag, the public
  setter, finalising, resetting a bind, inferring metadata and resizing. The only
  assignment to \<open>num_elements_in_array\<close> is made at the end of an array bind, with
  the 32-bit length of the list, which has passed the capacity check by then.
\<close>

theorem num_elements_in_array_bounded:
  assumes inv: "num_elements_in_array self \<le> num_elements self"
  shows "num_elements_in_array (fst (snd (check_and_set_value cat self pos v was_set)))
           \<le> num_elements (fst (snd (check_and_set_value cat self pos v was_set))) \<and>
         num_elements_in_array (snd (set_value cat self pos v))
           \<le> num_elements (snd (set_value cat self pos v)) \<and>
         num_elements_in_array (snd (finalize_init cat self))
           \<le> num_elements (snd (finalize_init cat self)) \<and>
         num_elements_in_array (snd (on_reset_bind cat self num_rows))
           \<le> num_elements (snd (on_reset_bind cat self num_rows)) \<and>
         num_elements_in_array (snd (set_metadata_from_value cat self v is_plsql))
           \<le> num_elements (snd (set_metadata_from_value cat self v is_plsql)) \<and>
         num_elements_in_array (snd (resize cat self new_size))
           \<le> num_elements (snd (resize cat self new_size)) \<and>
         (is_array self \<and>
          check_and_set_value cat self pos (PyList xs) None = (Returned, self', was_set') \<longrightarrow>
            num_elements_in_array self' = of_nat (length xs) \<and>
            num_elements_in_array self' \<le> num_elements self)"
proof -
  have bind: "num_elements_in_array s' \<le> num_elements s'"
    if r: "check_and_set_value cat self pos v ws = (out, s', ws')" for ws out s' ws'
  proof (cases "is_array self")
    case False
    with r have "check_and_set_scalar_value cat self pos v ws = (out, s', ws')"
      by (simp add: check_and_set_value_def)
    from scalar_frame [OF this] inv show ?thesis by simp
  next
    case True
    show ?thesis
    proof (cases "s' = self")
      case True
      with inv show ?thesis by simp
    next
      case False
      with r \<open>is_array self\<close> obtain ys where
        cap: "\<not> num_elements self < of_nat (length ys)" and
        loop: "set_elements cat self 0 ys ws (of_nat (length ys)) = (out, s', ws')"
        by (auto simp: check_and_set_value_def Let_def split: option.splits if_splits)
      from set_elements_frame [OF loop] have ne: "num_elements s' = num_elements self"
        by simp
      from set_elements_num_elements_in_array [OF loop] cap inv ne show ?thesis
        by auto
    qed
  qed
  have c1: "num_elements_in_array (fst (snd (check_and_set_value cat self pos v was_set)))
           \<le> num_elements (fst (snd (check_and_set_value cat self pos v was_set)))"
    using bind [of was_set] by (cases "check_and_set_value cat self pos v was_set") auto
  have c2: "num_elements_in_array (snd (set_value cat self pos v))
           \<le> num_elements (snd (set_value cat self pos v))"
    using bind [of None] inv
    by (cases "check_and_set_value cat self pos v None") (auto simp: set_value_def Let_def)
  have c3: "num_elements_in_array (snd (finalize_init cat self))
           \<le> num_elements (snd (finalize_init cat self))"
    using inv by (auto simp: finalize_init_def Let_def split: option.splits)
  have c4: "num_elements_in_array (snd (on_reset_bind cat self num_rows))
           \<le> num_elements (snd (on_reset_bind cat self num_rows))"
  proof (cases "num_elements self < num_rows")
    case True
    with inv have "num_elements_in_array self \<le> num_rows" by simp
    moreover from True have "num_rows \<noteq> 0" by auto
    ultimately show ?thesis using True
      by (auto simp: on_reset_bind_def finalize_init_def Let_def split: option.splits)
  next
    case False
    with inv show ?thesis by (simp add: on_reset_bind_def)
  qed
  have c5: "num_elements_in_array (snd (set_metadata_from_value cat self v is_plsql))
           \<le> num_elements (snd (set_metadata_from_value cat self v is_plsql))"
    using inv by (simp add: set_metadata_from_value_def Let_def split: sum.splits option.splits)
  have c6: "num_elements_in_array (snd (resize cat self new_size))
           \<le> num_elements (snd (resize cat self new_size))"
    using inv by (simp add: resize_def split: option.splits)
  have c7: "num_elements_in_array self' = of_nat (length xs) \<and>
            num_elements_in_array self' \<le> num_elements self"
    if a: "is_array self"
      and r: "check_and_set_value cat self pos (PyList xs) None = (Returned, self', was_set')"
  proof -
    from a r have cap: "\<not> num_elements self < of_nat (length xs)" and
      loop: "set_elements cat self 0 xs None (of_nat (length xs)) = (Returned, self', was_set')"
      by (auto simp: check_and_set_value_def Let_def split: if_splits)
    from set_elements_returned [OF loop] cap show ?thesis by simp
  qed
  from c1 c2 c3 c4 c5 c6 c7 show ?thesis by blast
qed

theorem num_elements_in_array_bounded_witness:
  "num_elements_in_array example_array_var \<le> num_elements example_array_var \<and>
   check_and_set_value example_catalog example_array_var 0
       (PyList [PyStr ''abc'', PyNone]) None =
     (Returned,
      example_array_var\<lparr>
        metadata := Some \<lparr>dbtype = DB_TYPE 1, objtype = None, max_size = 3, buffer_size = 3\<rparr>,
        num_elements_in_array := 2, is_value_set := True,
        slots := (\<lambda>j. PyStr ''old'')(0 := PyStr ''abc'', 1 := PyNone)\<rparr>, None) \<and>
   num_elements_in_array (fst (snd (check_and_set_value example_catalog example_array_var 0
       (PyList [PyStr ''abc'', PyNone]) None))) = 2 \<and>
   (2 :: u32) \<le> num_elements example_array_var"
proof -
  have inv: "num_elements_in_array example_array_var \<le> num_elements example_array_var"
    by (simp add: example_defs)
  have a: "is_array example_array_var" by (simp add: example_defs)
  have r: "check_and_set_value example_catalog example_array_var 0
       (PyList [PyStr ''abc'', PyNone]) None =
     (Returned,
      example_array_var\<lparr>
        metadata := Some \<lparr>dbtype = DB_TYPE 1, objtype = None, max_size = 3, buffer_size = 3\<rparr>,
        num_elements_in_array := 2, is_value_set := True,
        slots := (\<lambda>j. PyStr ''old'')(0 := PyStr ''abc'', 1 := PyNone)\<rparr>, None)"
    by (simp add: example_defs check_and_set_value_def check_and_set_scalar_value_def
        check_value_def resize_if_applicable_def resize_def set_scalar_value_def
        set_num_elements_in_array_def Let_def)
  from num_elements_in_array_bounded [OF inv, where cat = example_catalog and pos = 0
      and xs = "[PyStr ''abc'', PyNone]" and self' = "fst (snd (check_and_set_value
        example_catalog example_array_var 0 (PyList [PyStr ''abc'', PyNone]) None))"
      and was_set' = None] a r
  have "num_elements_in_array (fst (snd (check_and_set_value example_catalog example_array_var 0
       (PyList [PyStr ''abc'', PyNone]) None))) = of_nat (length [PyStr ''abc'', PyNone]) \<and>
     num_elements_in_array (fst (snd (check_and_set_value example_catalog example_array_var 0
       (PyList [PyStr ''abc'', PyNone]) None))) \<le> num_elements example_array_var"
    by simp
  with inv r show ?thesis by simp
qed

text \<open>
  Claim C3. Binding a list of length \<open>k\<close> below \<open>num_elements\<close> to an array variable
  writes only the slots at positions \<open>0\<close> to \<open>k - 1\<close>: when the bind returns, every slot
  at a position from \<open>k\<close> on holds the value it held before.
\<close>

theorem trailing_slots_keep_prior_state:
  assumes "is_array self"
    and "length xs < unat (num_elements self)"
    and "check_and_set_value cat self pos (PyList xs) was_set = (Returned, self', was_set')"
  shows "\<forall>j. length xs \<le> unat j \<longrightarrow> slots self' j = slots self j"
proof (intro allI impI)
  fix j :: u32
  assume j: "length xs \<le> unat j"
  note away = position_beyond_length [OF j]
  show "slots self' j = slots self j"
  proof (cases "self' = self")
    case True
    then show ?thesis by simp
  next
    case False
    with assms have "set_elements cat self 0 xs was_set (of_nat (length xs)) =
        (Returned, self', was_set')"
      by (auto simp: check_and_set_value_def Let_def split: if_splits option.splits)
    from set_elements_slots [OF this away] show ?thesis .
  qed
qed

theorem trailing_slots_keep_prior_state_witness:
  "is_array example_array_var \<and>
   length [PyStr ''abc'', PyNone] < unat (num_elements example_array_var) \<and>
   fst (check_and_set_value example_catalog example_array_var 0
          (PyList [PyStr ''abc'', PyNone]) None) = Returned \<and>
   slots (fst (snd (check_and_set_value example_catalog example_array_var 0
          (PyList [PyStr ''abc'', PyNone]) None))) 1 = PyNone \<and>
   slots (fst (snd (check_and_set_value example_catalog example_array_var 0
          (PyList [PyStr ''abc'', PyNone]) None))) 2 = PyStr ''old''"
proof -
  have a: "is_array example_array_var" by (simp add: example_defs)
  have l: "length [PyStr ''abc'', PyNone] < unat (num_elements example_array_var)"
    by (simp add: example_defs)
  have r: "check_and_set_value example_catalog example_array_var 0
       (PyList [PyStr ''abc'', PyNone]) None =
     (Returned,
      example_array_var\<lparr>
        metadata := Some \<lparr>dbtype = DB_TYPE 1, objtype = None, max_size = 3, buffer_size = 3\<rparr>,
        num_elements_in_array := 2, is_value_set := True,
        slots := (\<lambda>j. PyStr ''old'')(0 := PyStr ''abc'', 1 := PyNone)\<rparr>, None)"
    by (simp add: example_defs check_and_set_value_def check_and_set_scalar_value_def
        check_value_def resize_if_applicable_def resize_def set_scalar_value_def
        set_num_elements_in_array_def Let_def)
  have "length [PyStr ''abc'', PyNone] \<le> unat (2 :: u32)" by simp
  with trailing_slots_keep_prior_state [OF a l r]
  have "slots (example_array_var\<lparr>
        metadata := Some \<lparr>dbtype = DB_TYPE 1, objtype = None, max_size = 3, buffer_size = 3\<rparr>,
        num_elements_in_array := 2, is_value_set := True,
        slots := (\<lambda>j. PyStr ''old'')(0 := PyStr ''abc'', 1 := PyNone)\<rparr>) 2 =
      slots example_array_var 2"
    by blast
  then have "slots (fst (snd (check_and_set_value example_catalog example_array_var 0
          (PyList [PyStr ''abc'', PyNone]) None))) 2 = PyStr ''old''"
    using r by (simp add: example_defs)
  with a l r show ?thesis by simp
qed

text \<open>
  Claim C6. When a variable already has metadata, inferring metadata from a further
  value raises the mixed-element-types error exactly when the inferred database
  type (after the boolean fallback) or the inferred object type differs from the
  stored one, and the variable is then untouched. Otherwise nothing is raised, and
  the stored \<open>max_size\<close> becomes the larger of the stored and the inferred size; the
  rest of the stored metadata stays.
\<close>

theorem mixed_element_types_or_widen:
  assumes "metadata self = Some old"
    and "from_value cat v = Inr new0"
    and "new = adjust_boolean (conn_impl self) is_plsql new0"
  shows "set_metadata_from_value cat self v is_plsql =
           (if dbtype new \<noteq> dbtype old \<or> objtype new \<noteq> objtype old
            then (Raised (ERR_MIXED_ELEMENT_TYPES v), self)
            else (Returned,
                  self\<lparr>metadata := Some (old\<lparr>max_size := max (max_size old) (max_size new)\<rparr>)\<rparr>))"
proof (cases "dbtype new \<noteq> dbtype old \<or> objtype new \<noteq> objtype old")
  case True
  with assms show ?thesis
    by (auto simp: set_metadata_from_value_def Let_def)
next
  case False
  show ?thesis
  proof (cases "max_size old < max_size new")
    case True
    then have "max (max_size old) (max_size new) = max_size new"
      by (simp add: max_def less_imp_le)
    with True False assms show ?thesis
      by (simp add: set_metadata_from_value_def Let_def)
  next
    case nogrow: False
    then have "max (max_size old) (max_size new) = max_size old"
      by (auto simp: max_def)
    moreover have "self\<lparr>metadata := Some old\<rparr> = self"
      using assms(1) by (cases self) simp
    ultimately show ?thesis using nogrow False assms
      by (simp add: set_metadata_from_value_def Let_def)
  qed
qed

theorem mixed_element_types_or_widen_witness:
  "set_metadata_from_value example_catalog example_array_var (PyStr ''abcde'') False =
     (Returned,
      example_array_var\<lparr>metadata :=
        Some \<lparr>dbtype = DB_TYPE 1, objtype = None, max_size = 5, buffer_size = 2\<rparr>\<rparr>) \<and>
   set_metadata_from_value example_catalog example_array_var (PyStr ''a'') False =
     (Returned, example_array_var) \<and>
   set_metadata_from_value example_catalog example_array_var (PyBool True) False =
     (Raised (ERR_MIXED_ELEMENT_TYPES (PyBool True)), example_array_var)"
proof -
  have m: "metadata example_array_var =
      Some \<lparr>dbtype = DB_TYPE 1, objtype = None, max_size = 2, buffer_size = 2\<rparr>"
    by (simp add: example_defs)
  have f1: "from_value example_catalog (PyStr ''abcde'') =
      Inr \<lparr>dbtype = DB_TYPE 1, objtype = None, max_size = 5, buffer_size = 0\<rparr>"
    by (simp add: example_defs)
  have f2: "from_value example_catalog (PyStr ''a'') =
      Inr \<lparr>dbtype = DB_TYPE 1, objtype = None, max_size = 1, buffer_size = 0\<rparr>"
    by (simp add: example_defs)
  have f3: "from_value example_catalog (PyBool True) =
      Inr \<lparr>dbtype = DB_TYPE_BOOLEAN, objtype = None, max_size = 0, buffer_size = 0\<rparr>"
    by (simp add: example_defs)
  have same: "example_array_var\<lparr>metadata :=
        Some \<lparr>dbtype = DB_TYPE 1, objtype = None, max_size = 2, buffer_size = 2\<rparr>\<rparr> =
      example_array_var"
    by (simp add: example_defs)
  have "set_metadata_from_value example_catalog example_array_var (PyStr ''abcde'') False =
     (Returned,
      example_array_var\<lparr>metadata :=
        Some \<lparr>dbtype = DB_TYPE 1, objtype = None, max_size = 5, buffer_size = 2\<rparr>\<rparr>)"
    using mixed_element_types_or_widen [OF m f1 refl, of False]
    by (simp add: adjust_boolean_def)
  moreover have "set_metadata_from_value example_catalog example_array_var (PyStr ''a'') False =
     (Returned, example_array_var)"
    using mixed_element_types_or_widen [OF m f2 refl, of False] same
    by (simp add: adjust_boolean_def)
  moreover have "set_metadata_from_value example_catalog example_array_var (PyBool True) False =
     (Raised (ERR_MIXED_ELEMENT_TYPES (PyBool True)), example_array_var)"
    using mixed_element_types_or_widen [OF m f3 refl, of False]
    by (simp add: adjust_boolean_def example_defs)
  ultimately show ?thesis by simp
qed

text \<open>
  Claim C7. When the metadata inferred from a value has the boolean database type
  and the variable has no metadata yet, the type that is stored is the binary
  integer fallback when the connection does not support native booleans and the
  context is not PL/SQL, and the boolean type itself when the connection supports
  native booleans or the context is PL/SQL. Nothing else of the inferred metadata
  is changed.
\<close>

theorem boolean_fallback_outside_plsql:
  assumes "from_value cat v = Inr md0"
    and "dbtype md0 = DB_TYPE_BOOLEAN"
    and "metadata self = None"
  shows "set_metadata_from_value cat self v is_plsql =
           (Returned,
            self\<lparr>metadata :=
              Some (md0\<lparr>dbtype :=
                (if \<not> supports_bool (conn_impl self) \<and> \<not> is_plsql
                 then DB_TYPE_BINARY_INTEGER else DB_TYPE_BOOLEAN)\<rparr>)\<rparr>) \<and>
         dbtype (adjust_boolean (conn_impl self) is_plsql md0) =
           (if \<not> supports_bool (conn_impl self) \<and> \<not> is_plsql
            then DB_TYPE_BINARY_INTEGER else DB_TYPE_BOOLEAN)"
proof -
  have "md0\<lparr>dbtype := DB_TYPE_BOOLEAN\<rparr> = md0"
    using assms(2) by (cases md0) simp
  with assms show ?thesis
    by (simp add: set_metadata_from_value_def adjust_boolean_def Let_def)
qed

theorem boolean_fallback_outside_plsql_witness:
  "set_metadata_from_value example_catalog (example_scalar_var\<lparr>metadata := None\<rparr>)
       (PyBool True) False =
     (Returned,
      example_scalar_var\<lparr>metadata :=
        Some \<lparr>dbtype = DB_TYPE_BINARY_INTEGER, objtype = None, max_size = 0,
              buffer_size = 0\<rparr>\<rparr>) \<and>
   set_metadata_from_value example_catalog (example_scalar_var\<lparr>metadata := None\<rparr>)
       (PyBool True) True =
     (Returned,
      example_scalar_var\<lparr>metadata :=
        Some \<lparr>dbtype = DB_TYPE_BOOLEAN, objtype = None, max_size = 0, buffer_size = 0\<rparr>\<rparr>) \<and>
   set_metadata_from_value example_catalog
       (example_scalar_var\<lparr>metadata := None,
          conn_impl := example_conn\<lparr>supports_bool := True\<rparr>\<rparr>)
       (PyBool True) False =
     (Returned,
      example_scalar_var\<lparr>metadata :=
        Some \<lparr>dbtype = DB_TYPE_BOOLEAN, objtype = None, max_size = 0, buffer_size = 0\<rparr>,
        conn_impl := example_conn\<lparr>supports_bool := True\<rparr>\<rparr>)"
proof -
  have f: "from_value example_catalog (PyBool True) =
      Inr \<lparr>dbtype = DB_TYPE_BOOLEAN, objtype = None, max_size = 0, buffer_size = 0\<rparr>"
    by (simp add: example_defs)
  have b: "dbtype \<lparr>dbtype = DB_TYPE_BOOLEAN, objtype = None, max_size = 0,
      buffer_size = (0 :: u32)\<rparr> = DB_TYPE_BOOLEAN"
    by simp
  have n1: "metadata (example_scalar_var\<lparr>metadata := None\<rparr>) = None" by simp
  have n2: "metadata (example_scalar_var\<lparr>metadata := None,
      conn_impl := example_conn\<lparr>supports_bool := True\<rparr>\<rparr>) = None" by simp
  have s1: "\<not> supports_bool (conn_impl (example_scalar_var\<lparr>metadata := None\<rparr>))"
    by (simp add: example_defs)
  from boolean_fallback_outside_plsql [OF f b n1, of False] s1
  have "set_metadata_from_value example_catalog (example_scalar_var\<lparr>metadata := None\<rparr>)
       (PyBool True) False =
     (Returned,
      example_scalar_var\<lparr>metadata :=
        Some \<lparr>dbtype = DB_TYPE_BINARY_INTEGER, objtype = None, max_size = 0,
              buffer_size = 0\<rparr>\<rparr>)"
    by simp
  moreover from boolean_fallback_outside_plsql [OF f b n1, of True]
  have "set_metadata_from_value example_catalog (example_scalar_var\<lparr>metadata := None\<rparr>)
       (PyBool True) True =
     (Returned,
      example_scalar_var\<lparr>metadata :=
        Some \<lparr>dbtype = DB_TYPE_BOOLEAN, objtype = None, max_size = 0, buffer_size = 0\<rparr>\<rparr>)"
    by simp
  moreover from boolean_fallback_outside_plsql [OF f b n2, of False]
  have "set_metadata_from_value example_catalog
       (example_scalar_var\<lparr>metadata := None,
          conn_impl := example_conn\<lparr>supports_bool := True\<rparr>\<rparr>)
       (PyBool True) False =
     (Returned,
      example_scalar_var\<lparr>metadata :=
        Some \<lparr>dbtype = DB_TYPE_BOOLEAN, objtype = None, max_size = 0, buffer_size = 0\<rparr>,
        conn_impl := example_conn\<lparr>supports_bool := True\<rparr>\<rparr>)"
    by simp
  ultimately show ?thesis by simp
qed

text \<open>
  Claim C4. Once the metadata of a variable is set, \<open>max_size\<close> never shrinks: after a
  scalar bind, a bind through \<open>_check_and_set_value\<close> or the public setter, and after
  inferring metadata from a further value, the metadata is still set and its
  \<open>max_size\<close> is at least what it was. The resize step of the scalar bind either
  leaves the variable as it is or calls \<open>_resize\<close> with a size strictly larger than
  the current \<open>max_size\<close>, and \<open>_resize\<close> stores exactly that size before it hands the
  metadata to its finalisation. The finalisation of the metadata is defined outside
  this file; what is assumed of it is that it does not lower a non-zero \<open>max_size\<close>
  of a type with a non-zero default size, the only situation in which \<open>_resize\<close>
  calls it.
\<close>

theorem max_size_never_shrinks:
  assumes fin: "\<forall>m. default_size cat (dbtype m) \<noteq> 0 \<and> max_size m \<noteq> 0 \<longrightarrow>
                  max_size m \<le> max_size (metadata_finalize_init cat m)"
    and md: "metadata self = Some md"
  shows "(\<exists>md'. metadata (fst (snd (check_and_set_scalar_value cat self pos v was_set))) = Some md' \<and>
            max_size md \<le> max_size md') \<and>
         (\<exists>md'. metadata (fst (snd (check_and_set_value cat self pos v was_set))) = Some md' \<and>
            max_size md \<le> max_size md') \<and>
         (\<exists>md'. metadata (snd (set_value cat self pos v)) = Some md' \<and>
            max_size md \<le> max_size md') \<and>
         (\<exists>md'. metadata (snd (set_metadata_from_value cat self v is_plsql)) = Some md' \<and>
            max_size md \<le> max_size md') \<and>
         (snd (resize_if_applicable cat self v) = self \<or>
          (\<exists>size. max_size md < size \<and>
             resize_if_applicable cat self v = resize cat self size \<and>
             resize cat self size =
               (Returned,
                self\<lparr>metadata :=
                  Some (metadata_finalize_init cat (md\<lparr>max_size := size, buffer_size := 0\<rparr>))\<rparr>)))"
proof -
  have scalar: "\<exists>md'. metadata (fst (snd (check_and_set_scalar_value cat self pos v ws))) = Some md' \<and>
            max_size md \<le> max_size md'" for ws
  proof -
    obtain out s' ws' where r: "check_and_set_scalar_value cat self pos v ws = (out, s', ws')"
      by (cases "check_and_set_scalar_value cat self pos v ws") auto
    from scalar_max_size [OF fin md r] r show ?thesis by simp
  qed
  have bind: "\<exists>md'. metadata (fst (snd (check_and_set_value cat self pos v ws))) = Some md' \<and>
            max_size md \<le> max_size md'" for ws
  proof (cases "is_array self")
    case False
    with scalar [of ws] show ?thesis by (simp add: check_and_set_value_def)
  next
    case True
    obtain out s' ws' where r: "check_and_set_value cat self pos v ws = (out, s', ws')"
      by (cases "check_and_set_value cat self pos v ws") auto
    show ?thesis
    proof (cases "s' = self")
      case True
      with r md show ?thesis by simp
    next
      case False
      with r \<open>is_array self\<close> obtain ys where
        loop: "set_elements cat self 0 ys ws (of_nat (length ys)) = (out, s', ws')"
        by (auto simp: check_and_set_value_def Let_def split: option.splits if_splits)
      from set_elements_max_size [OF fin md loop] r show ?thesis by simp
    qed
  qed
  have setv: "\<exists>md'. metadata (snd (set_value cat self pos v)) = Some md' \<and>
            max_size md \<le> max_size md'"
    using bind [of None] md
    by (cases "check_and_set_value cat self pos v None") (auto simp: set_value_def Let_def)
  have infer: "\<exists>md'. metadata (snd (set_metadata_from_value cat self v is_plsql)) = Some md' \<and>
            max_size md \<le> max_size md'"
    using md by (auto simp: set_metadata_from_value_def Let_def less_imp_le split: sum.splits)
  have guard: "snd (resize_if_applicable cat self v) = self \<or>
          (\<exists>size. max_size md < size \<and>
             resize_if_applicable cat self v = resize cat self size \<and>
             resize cat self size =
               (Returned,
                self\<lparr>metadata :=
                  Some (metadata_finalize_init cat (md\<lparr>max_size := size, buffer_size := 0\<rparr>))\<rparr>))"
    using md by (auto simp: resize_if_applicable_def resize_def Let_def split: option.splits)
  from scalar [of was_set] bind [of was_set] setv infer guard show ?thesis by blast
qed

theorem max_size_never_shrinks_witness:
  "metadata example_scalar_var =
     Some \<lparr>dbtype = DB_TYPE 1, objtype = None, max_size = 2, buffer_size = 2\<rparr> \<and>
   check_and_set_scalar_value example_catalog example_scalar_var 0 (PyStr ''abc'') None =
     (Returned,
      example_scalar_var\<lparr>
        metadata := Some \<lparr>dbtype = DB_TYPE 1, objtype = None, max_size = 3, buffer_size = 3\<rparr>,
        is_value_set := True,
        slots := (\<lambda>j. PyStr ''old'')(0 := PyStr ''abc'')\<rparr>, None) \<and>
   (\<exists>md'. metadata (fst (snd (check_and_set_scalar_value example_catalog example_scalar_var 0
              (PyStr ''abc'') None))) = Some md' \<and> 2 \<le> max_size md')"
proof -
  have fin: "\<forall>m. default_size example_catalog (dbtype m) \<noteq> 0 \<and> max_size m \<noteq> 0 \<longrightarrow>
      max_size m \<le> max_size (metadata_finalize_init example_catalog m)"
    by (simp add: example_catalog_def example_finalize_def)
  have md: "metadata example_scalar_var =
     Some \<lparr>dbtype = DB_TYPE 1, objtype = None, max_size = 2, buffer_size = 2\<rparr>"
    by (simp add: example_defs)
  have r: "check_and_set_scalar_value example_catalog example_scalar_var 0 (PyStr ''abc'') None =
     (Returned,
      example_scalar_var\<lparr>
        metadata := Some \<lparr>dbtype = DB_TYPE 1, objtype = None, max_size = 3, buffer_size = 3\<rparr>,
        is_value_set := True,
        slots := (\<lambda>j. PyStr ''old'')(0 := PyStr ''abc'')\<rparr>, None)"
    by (simp add: example_defs check_and_set_scalar_value_def
        check_value_def resize_if_applicable_def resize_def set_scalar_value_def Let_def)
  from max_size_never_shrinks [OF fin md, of 0 "PyStr ''abc''" None]
  have "\<exists>md'. metadata (fst (snd (check_and_set_scalar_value example_catalog example_scalar_var 0
              (PyStr ''abc'') None))) = Some md' \<and> 2 \<le> max_size md'"
    by simp
  with md r show ?thesis by blast
qed

text \<open>
  Claim C9, as the code has it. For a variable that is not an array, \<open>get_value\<close>
  raises IndexError exactly when the position is at least \<open>num_elements\<close>, and reads the
  scalar slot otherwise. \<open>set_value\<close> raises IndexError, leaving the variable
  untouched, whenever the position is at least \<open>num_elements\<close>; below that it does
  what the scalar check-and-set does in raising mode, and so raises IndexError there
  exactly when the input converter of the variable raises IndexError on the value.
\<close>

theorem position_check_of_scalar_variable:
  assumes "\<not> is_array self"
  shows "(get_value self pos = Inl IndexError \<longleftrightarrow> num_elements self \<le> pos) \<and>
         (pos < num_elements self \<longrightarrow> get_value self pos = Inr (get_scalar_value self pos)) \<and>
         (fst (set_value cat self pos v) = Raised IndexError \<longleftrightarrow>
            num_elements self \<le> pos \<or>
            (\<exists>f. inconverter self = Some f \<and> f v = Inl IndexError)) \<and>
         (num_elements self \<le> pos \<longrightarrow> set_value cat self pos v = (Raised IndexError, self)) \<and>
         (pos < num_elements self \<longrightarrow>
            set_value cat self pos v =
              (case check_and_set_scalar_value cat self pos v None of
                 (out, self', was_set') \<Rightarrow> (out, self')))"
proof -
  have g: "get_value self pos = Inl IndexError \<longleftrightarrow> num_elements self \<le> pos"
    using assms by (simp add: get_value_def)
  have g2: "pos < num_elements self \<longrightarrow> get_value self pos = Inr (get_scalar_value self pos)"
    using assms by (auto simp: get_value_def)
  have s1: "num_elements self \<le> pos \<longrightarrow> set_value cat self pos v = (Raised IndexError, self)"
    using assms by (simp add: set_value_def)
  have s2: "pos < num_elements self \<longrightarrow>
            set_value cat self pos v =
              (case check_and_set_scalar_value cat self pos v None of
                 (out, self', was_set') \<Rightarrow> (out, self'))"
    using assms by (auto simp: set_value_def check_and_set_value_def)
  have s3: "fst (set_value cat self pos v) = Raised IndexError \<longleftrightarrow>
            num_elements self \<le> pos \<or>
            (\<exists>f. inconverter self = Some f \<and> f v = Inl IndexError)"
  proof (cases "num_elements self \<le> pos")
    case True
    with s1 show ?thesis by simp
  next
    case False
    with s2 have "fst (set_value cat self pos v) =
        fst (check_and_set_scalar_value cat self pos v None)"
      by (cases "check_and_set_scalar_value cat self pos v None") auto
    with False scalar_raises_IndexError [of cat self pos v] show ?thesis by simp
  qed
  from g g2 s1 s2 s3 show ?thesis by blast
qed

theorem position_check_of_scalar_variable_witness:
  "\<not> is_array example_scalar_var \<and>
   get_value example_scalar_var 0 = Inr (PyStr ''old'') \<and>
   get_value example_scalar_var 1 = Inl IndexError \<and>
   set_value example_catalog example_scalar_var 1 (PyStr ''ab'') =
     (Raised IndexError, example_scalar_var) \<and>
   fst (set_value example_catalog example_scalar_var 0 (PyStr ''ab'')) = Returned \<and>
   slots (snd (set_value example_catalog example_scalar_var 0 (PyStr ''ab''))) 0 = PyStr ''ab'' \<and>
   fst (set_value example_catalog example_converter_var 0 (PyStr ''ab'')) = Raised IndexError"
proof -
  have na: "\<not> is_array example_scalar_var"
    by (simp add: example_defs)
  have nc: "\<not> is_array example_converter_var"
    by (simp add: example_defs)
  note t0 = position_check_of_scalar_variable [OF na, of 0 example_catalog "PyStr ''ab''"]
  note t1 = position_check_of_scalar_variable [OF na, of 1 example_catalog "PyStr ''ab''"]
  note t2 = position_check_of_scalar_variable [OF nc, of 0 example_catalog "PyStr ''ab''"]
  have n: "num_elements example_scalar_var = 1" by (simp add: example_defs)
  have sc: "check_and_set_scalar_value example_catalog example_scalar_var 0 (PyStr ''ab'') None =
      (Returned, example_scalar_var\<lparr>is_value_set := True,
         slots := (slots example_scalar_var)(0 := PyStr ''ab'')\<rparr>, None)"
    by (simp add: example_defs check_and_set_scalar_value_def check_value_def
        resize_if_applicable_def set_scalar_value_def)
  have cv: "\<exists>f. inconverter example_converter_var = Some f \<and> f (PyStr ''ab'') = Inl IndexError"
    by (simp add: example_defs)
  have "get_value example_scalar_var 0 = Inr (PyStr ''old'')"
    using t0 n by (simp add: get_scalar_value_def example_defs)
  moreover have "get_value example_scalar_var 1 = Inl IndexError"
    using t1 n by simp
  moreover have "set_value example_catalog example_scalar_var 1 (PyStr ''ab'') =
     (Raised IndexError, example_scalar_var)"
    using t1 n by simp
  moreover have "set_value example_catalog example_scalar_var 0 (PyStr ''ab'') =
      (Returned, example_scalar_var\<lparr>is_value_set := True,
         slots := (slots example_scalar_var)(0 := PyStr ''ab'')\<rparr>)"
    using t0 n sc by simp
  moreover have "fst (set_value example_catalog example_converter_var 0 (PyStr ''ab'')) =
      Raised IndexError"
    using t2 cv by blast
  ultimately show ?thesis using na by simp
qed

text \<open>
  The claim as stated (IndexError exactly when the position is at least
  \<open>num_elements\<close>) fails for \<open>set_value\<close>: position 0 is below \<open>num_elements\<close> of the
  example variable with the raising converter, and the call raises IndexError, the
  exception of the converter.
\<close>

theorem converter_index_error_counterexample:
  "\<not> is_array example_converter_var \<and>
   0 < num_elements example_converter_var \<and>
   set_value example_catalog example_converter_var 0 (PyStr ''ab'') =
     (Raised IndexError, example_converter_var)"
  by (simp add: example_defs set_value_def check_and_set_value_def
      check_and_set_scalar_value_def)










text \<open>
  Claim C2, as the code has it. For an array variable in raising mode and a list of
  fewer than \<open>2 ^ 32\<close> elements: a list longer than \<open>num_elements\<close> raises the array-size
  error and leaves the variable untouched. A list of length at most \<open>num_elements\<close>
  passes the capacity check, and the bind returns exactly when the scalar bind of
  every element returns in the state reached by binding the elements before it; it
  then has set \<open>num_elements_in_array\<close> to the length of the list. Otherwise the bind
  raises the error of the first element whose scalar bind raises, in the state that
  binding the elements before it produces, and \<open>num_elements_in_array\<close> is left as
  it was.
\<close>

theorem capacity_check_of_array_bind:
  assumes "is_array self"
  shows "(unat (num_elements self) < length xs \<and> length xs < 2 ^ 32 \<longrightarrow>
            check_and_set_value cat self pos (PyList xs) None =
              (Raised (ERR_INCORRECT_VAR_ARRAYSIZE (num_elements self) (of_nat (length xs))),
               self, None)) \<and>
         (length xs \<le> unat (num_elements self) \<longrightarrow>
            (fst (check_and_set_value cat self pos (PyList xs) None) = Returned \<longleftrightarrow>
               (\<forall>pre x post. xs = pre @ x # post \<longrightarrow>
                  fst (check_and_set_scalar_value cat
                         ((fst (snd (check_and_set_value cat self pos (PyList pre) None)))
                            \<lparr>num_elements_in_array := num_elements_in_array self\<rparr>)
                         (of_nat (length pre)) x None) = Returned)) \<and>
            (fst (check_and_set_value cat self pos (PyList xs) None) = Returned \<longrightarrow>
               unat (num_elements_in_array
                      (fst (snd (check_and_set_value cat self pos (PyList xs) None))))
                 = length xs \<and>
               snd (snd (check_and_set_value cat self pos (PyList xs) None)) = None) \<and>
            (check_and_set_value cat self pos (PyList xs) None = (Raised e, self', was_set') \<longrightarrow>
               num_elements_in_array self' = num_elements_in_array self \<and>
               (\<exists>pre x post.
                  xs = pre @ x # post \<and>
                  check_and_set_value cat self pos (PyList pre) None =
                    (Returned, self'\<lparr>num_elements_in_array := of_nat (length pre)\<rparr>, None) \<and>
                  check_and_set_scalar_value cat self' (of_nat (length pre)) x None =
                    (Raised e, self', None))))"
proof -
  have over: "check_and_set_value cat self pos (PyList xs) None =
              (Raised (ERR_INCORRECT_VAR_ARRAYSIZE (num_elements self) (of_nat (length xs))),
               self, None)"
    if "unat (num_elements self) < length xs" and "length xs < 2 ^ 32"
    using length_over_capacity [OF that] assms by (simp add: check_and_set_value_def)
  have bind_eq: "check_and_set_value cat self pos (PyList ys) None =
      set_elements cat self 0 ys None (of_nat (length ys))"
    if "length ys \<le> unat (num_elements self)" for ys
    using length_within_capacity(2) [OF that] assms by (simp add: check_and_set_value_def)
  have raised: "num_elements_in_array s' = num_elements_in_array self \<and>
               (\<exists>pre x post.
                  xs = pre @ x # post \<and>
                  check_and_set_value cat self pos (PyList pre) None =
                    (Returned, s'\<lparr>num_elements_in_array := of_nat (length pre)\<rparr>, None) \<and>
                  check_and_set_scalar_value cat s' (of_nat (length pre)) x None =
                    (Raised e', s', None))"
    if cap: "length xs \<le> unat (num_elements self)"
      and r: "check_and_set_value cat self pos (PyList xs) None = (Raised e', s', w')"
    for e' s' w'
  proof -
    from r bind_eq [OF cap]
    have loop: "set_elements cat self 0 xs None (of_nat (length xs)) = (Raised e', s', w')"
      by simp
    from set_elements_raised [OF loop] obtain pre x post where
      nia: "num_elements_in_array s' = num_elements_in_array self" and
      xs: "xs = pre @ x # post" and
      pre: "\<forall>m. set_elements cat self 0 pre None m =
              (Returned, s'\<lparr>num_elements_in_array := m\<rparr>, None)" and
      bad: "check_and_set_scalar_value cat s' (0 + of_nat (length pre)) x None =
              (Raised e', s', None)"
      by blast
    from xs cap have "length pre \<le> unat (num_elements self)" by simp
    from bind_eq [OF this] pre
    have "check_and_set_value cat self pos (PyList pre) None =
        (Returned, s'\<lparr>num_elements_in_array := of_nat (length pre)\<rparr>, None)"
      by simp
    with xs bad have "\<exists>pre x post.
                  xs = pre @ x # post \<and>
                  check_and_set_value cat self pos (PyList pre) None =
                    (Returned, s'\<lparr>num_elements_in_array := of_nat (length pre)\<rparr>, None) \<and>
                  check_and_set_scalar_value cat s' (of_nat (length pre)) x None =
                    (Raised e', s', None)"
      by auto
    with nia show ?thesis by simp
  qed
  have returned: "unat (num_elements_in_array
                      (fst (snd (check_and_set_value cat self pos (PyList xs) None))))
                 = length xs \<and>
               snd (snd (check_and_set_value cat self pos (PyList xs) None)) = None"
    if cap: "length xs \<le> unat (num_elements self)"
      and r: "fst (check_and_set_value cat self pos (PyList xs) None) = Returned"
  proof -
    obtain s' w' where
      loop: "set_elements cat self 0 xs None (of_nat (length xs)) = (Returned, s', w')"
      using r bind_eq [OF cap]
      by (cases "set_elements cat self 0 xs None (of_nat (length xs))") auto
    from set_elements_returned [OF loop] set_elements_flag_none [OF loop]
      length_within_capacity(1) [OF cap] loop bind_eq [OF cap]
    show ?thesis by simp
  qed
  have only_if: "fst (check_and_set_scalar_value cat
                         ((fst (snd (check_and_set_value cat self pos (PyList pre) None)))
                            \<lparr>num_elements_in_array := num_elements_in_array self\<rparr>)
                         (of_nat (length pre)) x None) = Returned"
    if cap: "length xs \<le> unat (num_elements self)"
      and r: "fst (check_and_set_value cat self pos (PyList xs) None) = Returned"
      and xs: "xs = pre @ x # post"
    for pre x post
  proof -
    let ?n = "of_nat (length xs) :: u32"
    obtain s' w' where
      loop: "set_elements cat self 0 (pre @ x # post) None ?n = (Returned, s', w')"
      using r bind_eq [OF cap] xs
      by (cases "set_elements cat self 0 xs None ?n") auto
    from set_elements_prefix_returned [OF loop] obtain s1 where
      prefix: "set_elements cat self 0 pre None (of_nat (length pre)) = (Returned, s1, None)"
      by blast
    from xs cap have "length pre \<le> unat (num_elements self)" by simp
    from bind_eq [OF this] prefix
    have state: "fst (snd (check_and_set_value cat self pos (PyList pre) None)) = s1"
      by simp
    let ?s = "s1\<lparr>num_elements_in_array := num_elements_in_array self\<rparr>"
    obtain o1 s2 w2 where
      step: "check_and_set_scalar_value cat ?s (of_nat (length pre)) x None = (o1, s2, w2)"
      by (cases "check_and_set_scalar_value cat ?s (of_nat (length pre)) x None") auto
    have "o1 = Returned"
    proof (cases o1)
      case Returned
      then show ?thesis .
    next
      case (Raised e')
      with set_elements_append [OF prefix, of "x # post" ?n] step loop
      show ?thesis by simp
    qed
    with step state show ?thesis by simp
  qed
  have "if": "fst (check_and_set_value cat self pos (PyList xs) None) = Returned"
    if cap: "length xs \<le> unat (num_elements self)"
      and all: "\<forall>pre x post. xs = pre @ x # post \<longrightarrow>
                  fst (check_and_set_scalar_value cat
                         ((fst (snd (check_and_set_value cat self pos (PyList pre) None)))
                            \<lparr>num_elements_in_array := num_elements_in_array self\<rparr>)
                         (of_nat (length pre)) x None) = Returned"
  proof (rule ccontr)
    assume "fst (check_and_set_value cat self pos (PyList xs) None) \<noteq> Returned"
    then obtain e' s' w' where
      r: "check_and_set_value cat self pos (PyList xs) None = (Raised e', s', w')"
      by (cases "check_and_set_value cat self pos (PyList xs) None";
          cases "fst (check_and_set_value cat self pos (PyList xs) None)") auto
    from raised [OF cap r] obtain pre x post where
      nia: "num_elements_in_array s' = num_elements_in_array self" and
      xs: "xs = pre @ x # post" and
      prefix: "check_and_set_value cat self pos (PyList pre) None =
                 (Returned, s'\<lparr>num_elements_in_array := of_nat (length pre)\<rparr>, None)" and
      bad: "check_and_set_scalar_value cat s' (of_nat (length pre)) x None =
              (Raised e', s', None)"
      by blast
    have "(s'\<lparr>num_elements_in_array := of_nat (length pre)\<rparr>)
            \<lparr>num_elements_in_array := num_elements_in_array self\<rparr> = s'"
      using nia by (cases s') simp
    with all [rule_format, OF xs] prefix bad show False by simp
  qed
  from over raised returned only_if "if" show ?thesis by blast
qed

text \<open>The example array variable, bound to a string and None, and to one integer.\<close>

lemma example_bind_within_capacity:
  "check_and_set_value example_catalog example_array_var 0
       (PyList [PyStr ''abc'', PyNone]) None =
     (Returned,
      example_array_var\<lparr>
        metadata := Some \<lparr>dbtype = DB_TYPE 1, objtype = None, max_size = 3, buffer_size = 3\<rparr>,
        num_elements_in_array := 2, is_value_set := True,
        slots := (\<lambda>j. PyStr ''old'')(0 := PyStr ''abc'', 1 := PyNone)\<rparr>, None)"
  by (simp add: example_defs check_and_set_value_def check_and_set_scalar_value_def
      check_value_def resize_if_applicable_def resize_def set_scalar_value_def
      set_num_elements_in_array_def Let_def)

lemma example_bind_of_one_integer:
  "check_and_set_value example_catalog example_array_var 0 (PyList [PyInt 5]) None =
     (Raised ERR_UNSUPPORTED_TYPE_SET, example_array_var, None)"
  by (simp add: example_defs check_and_set_value_def check_and_set_scalar_value_def
      check_value_def)

theorem capacity_check_of_array_bind_witness:
  "is_array example_array_var \<and>
   check_and_set_value example_catalog example_array_var 0
       (PyList [PyNone, PyNone, PyNone, PyNone]) None =
     (Raised (ERR_INCORRECT_VAR_ARRAYSIZE 3 4), example_array_var, None) \<and>
   fst (check_and_set_value example_catalog example_array_var 0
       (PyList [PyStr ''abc'', PyNone]) None) = Returned \<and>
   unat (num_elements_in_array (fst (snd (check_and_set_value example_catalog example_array_var 0
       (PyList [PyStr ''abc'', PyNone]) None)))) = 2 \<and>
   fst (check_and_set_scalar_value example_catalog
         ((fst (snd (check_and_set_value example_catalog example_array_var 0
                  (PyList [PyStr ''abc'']) None)))
            \<lparr>num_elements_in_array := num_elements_in_array example_array_var\<rparr>)
         1 PyNone None) = Returned \<and>
   fst (check_and_set_value example_catalog example_array_var 0 (PyList [PyInt 5]) None) =
     Raised ERR_UNSUPPORTED_TYPE_SET \<and>
   num_elements_in_array (fst (snd (check_and_set_value example_catalog example_array_var 0
       (PyList [PyInt 5]) None))) = 0"
proof -
  have a: "is_array example_array_var" by (simp add: example_defs)
  have n: "num_elements example_array_var = 3" "num_elements_in_array example_array_var = 0"
    by (simp_all add: example_defs)
  have r: "fst (check_and_set_value example_catalog example_array_var 0
       (PyList [PyStr ''abc'', PyNone]) None) = Returned"
    by (simp add: example_bind_within_capacity)
  have h1: "unat (num_elements example_array_var) < length [PyNone, PyNone, PyNone, PyNone] \<and>
      length [PyNone, PyNone, PyNone, PyNone] < 2 ^ 32"
    using n by simp
  have h2: "length [PyStr ''abc'', PyNone] \<le> unat (num_elements example_array_var)"
    using n by simp
  have h3: "length [PyInt 5] \<le> unat (num_elements example_array_var)"
    using n by simp
  have h4: "[PyStr ''abc'', PyNone] = [PyStr ''abc''] @ PyNone # []" by simp
  note t = capacity_check_of_array_bind [OF a, where cat = example_catalog and pos = 0]
  from t [where xs = "[PyNone, PyNone, PyNone, PyNone]"] h1 n
  have over: "check_and_set_value example_catalog example_array_var 0
       (PyList [PyNone, PyNone, PyNone, PyNone]) None =
     (Raised (ERR_INCORRECT_VAR_ARRAYSIZE 3 4), example_array_var, None)"
    by simp
  from t [where xs = "[PyStr ''abc'', PyNone]"] h2 r
  have len: "unat (num_elements_in_array (fst (snd (check_and_set_value example_catalog
       example_array_var 0 (PyList [PyStr ''abc'', PyNone]) None)))) = 2"
    by simp
  from t [where xs = "[PyStr ''abc'', PyNone]"] h2 r
  have "\<forall>pre x post. [PyStr ''abc'', PyNone] = pre @ x # post \<longrightarrow>
      fst (check_and_set_scalar_value example_catalog
            ((fst (snd (check_and_set_value example_catalog example_array_var 0
                     (PyList pre) None)))
               \<lparr>num_elements_in_array := num_elements_in_array example_array_var\<rparr>)
            (of_nat (length pre)) x None) = Returned"
    by blast
  from this [rule_format, OF h4]
  have elem: "fst (check_and_set_scalar_value example_catalog
         ((fst (snd (check_and_set_value example_catalog example_array_var 0
                  (PyList [PyStr ''abc'']) None)))
            \<lparr>num_elements_in_array := num_elements_in_array example_array_var\<rparr>)
         1 PyNone None) = Returned"
    by simp
  from t [where xs = "[PyInt 5]" and e = ERR_UNSUPPORTED_TYPE_SET and self' = example_array_var
      and was_set' = None] h3 example_bind_of_one_integer
  have "num_elements_in_array example_array_var = num_elements_in_array example_array_var"
    by blast
  with n example_bind_of_one_integer
  have bad: "fst (check_and_set_value example_catalog example_array_var 0
        (PyList [PyInt 5]) None) = Raised ERR_UNSUPPORTED_TYPE_SET"
    "num_elements_in_array (fst (snd (check_and_set_value example_catalog example_array_var 0
       (PyList [PyInt 5]) None))) = 0"
    by simp_all
  from a over r len elem bad show ?thesis by simp
qed

text \<open>
  The claim as stated (any list of length at most \<open>num_elements\<close> is accepted and sets
  \<open>num_elements_in_array\<close> to its length) fails on the example array variable of
  capacity 3: a list of one integer is within the capacity, the bind raises, and
  \<open>num_elements_in_array\<close> is still 0, not 1.
\<close>

theorem capacity_check_counterexample:
  "length [PyInt 5] \<le> unat (num_elements example_array_var) \<and>
   fst (check_and_set_value example_catalog example_array_var 0 (PyList [PyInt 5]) None) =
     Raised ERR_UNSUPPORTED_TYPE_SET \<and>
   num_elements_in_array (fst (snd (check_and_set_value example_catalog example_array_var 0
     (PyList [PyInt 5]) None))) = 0"
  by (simp add: example_bind_of_one_integer) (simp add: example_defs)

end
